theory Spec2Isabelle
  imports Main
begin

section \<open>JavaScript strings\<close>

text \<open>
  A JavaScript string is a sequence of UTF-16 code units. A code unit is modelled by its
  number, a string by the list of its code units, so \<open>length\<close> is the \<open>.length\<close> of
  the source. What holds for every list of numbers holds for every string. ASCII text is
  written with \<open>js\<close>; \<open>cmd ''alpha''\<close> is the text of the command
  \<open>\alpha\<close>: a backslash (92) followed by the name.
\<close>

type_synonym jschar = nat
type_synonym jsstring = "jschar list"

definition js :: "string \<Rightarrow> jsstring" where
  "js s = map of_char s"

definition cmd :: "string \<Rightarrow> jsstring" where
  "cmd name = 92 # js name"

text \<open>
  The class \<open>\s\<close> of regular expressions, which is also what \<open>String.prototype.trim\<close>
  removes: WhiteSpace (TAB, VT, FF, SP, NBSP, ZWNBSP and the other space separators) and
  LineTerminator (LF, CR, LS, PS).
\<close>

definition is_space :: "jschar \<Rightarrow> bool" where
  "is_space c \<longleftrightarrow>
     c = 9 \<or> c = 10 \<or> c = 11 \<or> c = 12 \<or> c = 13 \<or> c = 32 \<or> c = 160 \<or> c = 5760 \<or>
     (8192 \<le> c \<and> c \<le> 8202) \<or> c = 8232 \<or> c = 8233 \<or> c = 8239 \<or> c = 8287 \<or>
     c = 12288 \<or> c = 65279"

text \<open>The classes \<open>[a-zA-Z]\<close>, \<open>\d\<close> and \<open>\w\<close>, and the characters that \<open>.\<close> refuses.\<close>

definition is_alpha :: "jschar \<Rightarrow> bool" where
  "is_alpha c \<longleftrightarrow> (65 \<le> c \<and> c \<le> 90) \<or> (97 \<le> c \<and> c \<le> 122)"

definition is_digit :: "jschar \<Rightarrow> bool" where
  "is_digit c \<longleftrightarrow> 48 \<le> c \<and> c \<le> 57"

definition is_word :: "jschar \<Rightarrow> bool" where
  "is_word c \<longleftrightarrow> is_alpha c \<or> is_digit c \<or> c = 95"

definition is_line_terminator :: "jschar \<Rightarrow> bool" where
  "is_line_terminator c \<longleftrightarrow> c = 10 \<or> c = 13 \<or> c = 8232 \<or> c = 8233"

text \<open>\<open>String.prototype.trim\<close>.\<close>

definition trim :: "jsstring \<Rightarrow> jsstring" where
  "trim s = rev (dropWhile is_space (rev (dropWhile is_space s)))"

text \<open>The text after the prefix \<open>p\<close>, when the text starts with \<open>p\<close>.\<close>

fun strip_prefix :: "jsstring \<Rightarrow> jsstring \<Rightarrow> jsstring option" where
  "strip_prefix [] s = Some s"
| "strip_prefix (p # ps) [] = None"
| "strip_prefix (p # ps) (c # cs) = (if p = c then strip_prefix ps cs else None)"

text \<open>\<open>String.prototype.includes\<close>: the text occurs at some position.\<close>

fun str_includes :: "jsstring \<Rightarrow> jsstring \<Rightarrow> bool" where
  "str_includes sub [] = (sub = [])"
| "str_includes sub (c # cs) = (strip_prefix sub (c # cs) \<noteq> None \<or> str_includes sub cs)"

section \<open>Regular expressions\<close>

text \<open>
  A regular expression of the source is modelled by its matcher: given the text from the
  current position on, the matcher returns the capture groups and the text that follows
  the match, or \<open>None\<close> when the expression does not match at this position. Capture
  groups are recorded where a replacement refers to them.
\<close>

type_synonym matcher = "jsstring \<Rightarrow> (jsstring list \<times> jsstring) option"

text \<open>
  \<open>String.prototype.replace\<close> with a global expression: the text is scanned from the
  left, each match is replaced and the scan goes on after it; after an empty match the
  scan copies one code unit and goes on.
\<close>

function replace_all :: "matcher \<Rightarrow> (jsstring list \<Rightarrow> jsstring) \<Rightarrow> jsstring \<Rightarrow> jsstring" where
  "replace_all m rep [] = (case m [] of Some (g, rest) \<Rightarrow> rep g | None \<Rightarrow> [])"
| "replace_all m rep (c # cs) =
     (case m (c # cs) of
        Some (g, rest) \<Rightarrow>
          if length rest < length (c # cs) then rep g @ replace_all m rep rest
          else rep g @ c # replace_all m rep cs
      | None \<Rightarrow> c # replace_all m rep cs)"
  by pat_completeness auto
termination
  by (relation "measure (\<lambda>(m, rep, s). length s)") auto

text \<open>\<open>RegExp.prototype.test\<close> on a fresh expression: it matches at some position.\<close>

fun regex_test :: "matcher \<Rightarrow> jsstring \<Rightarrow> bool" where
  "regex_test m [] = (m [] \<noteq> None)"
| "regex_test m (c # cs) = (m (c # cs) \<noteq> None \<or> regex_test m cs)"

text \<open>
  \<open>String.prototype.match\<close> with a global expression: the matched texts from left to
  right, or \<open>null\<close> (here \<open>None\<close>) when there is none. The matcher also sees the code
  unit before the current position, which a lookbehind reads.
\<close>

function match_all :: "(jschar option \<Rightarrow> matcher) \<Rightarrow> jschar option \<Rightarrow> jsstring \<Rightarrow> jsstring list" where
  "match_all m prev [] = (case m prev [] of Some (g, rest) \<Rightarrow> [[]] | None \<Rightarrow> [])"
| "match_all m prev (c # cs) =
     (case m prev (c # cs) of
        Some (g, rest) \<Rightarrow>
          if length rest < length (c # cs)
          then (let txt = take (length (c # cs) - length rest) (c # cs)
                in txt # match_all m (Some (last txt)) rest)
          else [] # match_all m (Some c) cs
      | None \<Rightarrow> match_all m (Some c) cs)"
  by pat_completeness auto
termination
  by (relation "measure (\<lambda>(m, prev, s). length s)") auto

definition str_match :: "(jschar option \<Rightarrow> matcher) \<Rightarrow> jsstring \<Rightarrow> jsstring list option" where
  "str_match m s = (let ms = match_all m None s in if ms = [] then None else Some ms)"

subsection \<open>Building blocks\<close>

text \<open>A literal text; \<open>alt\<close> is the alternation \<open>|\<close>: the first alternative that matches.\<close>

definition lit :: "jsstring \<Rightarrow> matcher" where
  "lit p s = (case strip_prefix p s of None \<Rightarrow> None | Some r \<Rightarrow> Some ([], r))"

fun alt :: "matcher list \<Rightarrow> matcher" where
  "alt [] s = None"
| "alt (m # ms) s = (case m s of Some x \<Rightarrow> Some x | None \<Rightarrow> alt ms s)"

text \<open>
  Matching with the flag \<open>i\<close> compares canonical forms. Every pattern with that flag is
  ASCII, and no code unit from 128 on has an ASCII canonical form, so only the ASCII
  letters fold.
\<close>

definition canonicalize :: "jschar \<Rightarrow> jschar" where
  "canonicalize c = (if 97 \<le> c \<and> c \<le> 122 then c - 32 else c)"

fun strip_prefix_ci :: "jsstring \<Rightarrow> jsstring \<Rightarrow> jsstring option" where
  "strip_prefix_ci [] s = Some s"
| "strip_prefix_ci (p # ps) [] = None"
| "strip_prefix_ci (p # ps) (c # cs) =
     (if canonicalize p = canonicalize c then strip_prefix_ci ps cs else None)"

definition lit_ci :: "jsstring \<Rightarrow> matcher" where
  "lit_ci p s = (case strip_prefix_ci p s of None \<Rightarrow> None | Some r \<Rightarrow> Some ([], r))"

text \<open>
  \<open>([^}]+)\}\<close>: the longest run of code units other than \<open>}\<close> (125), which must not be
  empty, and the closing brace after it. A shorter run would not be followed by a brace,
  so backtracking finds nothing else.
\<close>

definition until_close :: "jsstring \<Rightarrow> (jsstring \<times> jsstring) option" where
  "until_close s =
     (let body = takeWhile (\<lambda>c. c \<noteq> 125) s; r = dropWhile (\<lambda>c. c \<noteq> 125) s
      in if body \<noteq> [] \<and> r \<noteq> [] then Some (body, tl r) else None)"

text \<open>\<open>\b\<close> after a word character: the end of the text or a character outside \<open>\w\<close>.\<close>

definition at_word_end :: "jsstring \<Rightarrow> bool" where
  "at_word_end s = (case s of [] \<Rightarrow> True | c # cs \<Rightarrow> \<not> is_word c)"

text \<open>
  \<open>.*?\<close> followed by the rest \<open>k\<close> of the expression: the shortest run of characters
  other than line terminators after which \<open>k\<close> matches.
\<close>

fun lazy_dot_then :: "matcher \<Rightarrow> matcher" where
  "lazy_dot_then k [] = k []"
| "lazy_dot_then k (c # cs) =
     (case k (c # cs) of
        Some x \<Rightarrow> Some x
      | None \<Rightarrow> if is_line_terminator c then None else lazy_dot_then k cs)"

section \<open>The parser\<close>

subsection \<open>symbolMap\<close>

text \<open>
  The table of commands and their readable forms, in the order of the object literal,
  which is the order \<open>Object.entries\<close> enumerates. Glyphs are given by code unit.
\<close>

definition symbolMap :: "(jsstring \<times> jsstring) list" where
  "symbolMap =
    [(cmd ''alpha'', [945]), (cmd ''beta'', [946]), (cmd ''gamma'', [947]), (cmd ''delta'', [948]),
     (cmd ''epsilon'', [949]), (cmd ''zeta'', [950]), (cmd ''eta'', [951]), (cmd ''theta'', [952]),
     (cmd ''iota'', [953]), (cmd ''kappa'', [954]), (cmd ''lambda'', [955]), (cmd ''mu'', [956]),
     (cmd ''nu'', [957]), (cmd ''xi'', [958]), (cmd ''pi'', [960]), (cmd ''rho'', [961]),
     (cmd ''sigma'', [963]), (cmd ''tau'', [964]), (cmd ''upsilon'', [965]), (cmd ''phi'', [966]),
     (cmd ''chi'', [967]), (cmd ''psi'', [968]), (cmd ''omega'', [969]),
     (cmd ''Gamma'', [915]), (cmd ''Delta'', [916]), (cmd ''Theta'', [920]), (cmd ''Lambda'', [923]),
     (cmd ''Xi'', [926]), (cmd ''Pi'', [928]), (cmd ''Sigma'', [931]), (cmd ''Phi'', [934]),
     (cmd ''Psi'', [936]), (cmd ''Omega'', [937]),
     (cmd ''infty'', [8734]), (cmd ''partial'', [8706]), (cmd ''nabla'', [8711]),
     (cmd ''sum'', [931]), (cmd ''prod'', [928]), (cmd ''int'', [8747]),
     (cmd ''leq'', [8804]), (cmd ''geq'', [8805]), (cmd ''neq'', [8800]), (cmd ''approx'', [8776]),
     (cmd ''pm'', [177]), (cmd ''times'', [215]), (cmd ''div'', [247]), (cmd ''cdot'', [183]),
     (cmd ''in'', [8712]), (cmd ''notin'', [8713]), (cmd ''subset'', [8834]), (cmd ''supset'', [8835]),
     (cmd ''cup'', [8746]), (cmd ''cap'', [8745]), (cmd ''emptyset'', [8709]),
     (cmd ''forall'', [8704]), (cmd ''exists'', [8707]), (cmd ''neg'', [172]),
     (cmd ''wedge'', [8743]), (cmd ''vee'', [8744]), (cmd ''Rightarrow'', [8658]),
     (cmd ''Leftrightarrow'', [8660]),
     (cmd ''rightarrow'', [8594]), (cmd ''leftarrow'', [8592]), (cmd ''leftrightarrow'', [8596]),
     (cmd ''ldots'', js ''...''), (cmd ''cdots'', [8943]), (cmd ''vdots'', [8942]),
     (cmd ''sqrt'', [8730]), (cmd ''exp'', js ''exp''), (cmd ''log'', js ''log''), (cmd ''ln'', js ''ln''),
     (cmd ''sin'', js ''sin''), (cmd ''cos'', js ''cos''), (cmd ''tan'', js ''tan''),
     (cmd ''lim'', js ''lim''), (cmd ''max'', js ''max''), (cmd ''min'', js ''min''),
     (cmd ''arg'', js ''arg'')]"

subsection \<open>clean\<close>

text \<open>\<open>/\\\[|\\\]/g\<close>: a backslash and an opening (91) or closing (93) square bracket.\<close>

definition re_display :: matcher where
  "re_display = alt [lit [92, 91], lit [92, 93]]"

text \<open>\<open>/\$\$?/g\<close>: a dollar sign (36) and, when there is one, a second.\<close>

definition re_dollar :: matcher where
  "re_dollar = alt [lit [36, 36], lit [36]]"

text \<open>\<open>/\\begin\{[^}]+\}/g\<close> and \<open>/\\end\{[^}]+\}/g\<close>.\<close>

definition re_env :: "string \<Rightarrow> matcher" where
  "re_env name s =
     (case strip_prefix (cmd name @ js ''{'') s of
        None \<Rightarrow> None
      | Some r \<Rightarrow> (case until_close r of None \<Rightarrow> None | Some (body, r') \<Rightarrow> Some ([], r')))"

text \<open>\<open>/&/g\<close> (38), \<open>/\\\\/g\<close> (two backslashes) and \<open>/\s+/g\<close>.\<close>

definition re_amp :: matcher where
  "re_amp = lit [38]"

definition re_linebreak :: matcher where
  "re_linebreak = lit [92, 92]"

definition re_spaces :: matcher where
  "re_spaces s =
     (if takeWhile is_space s \<noteq> [] then Some ([], dropWhile is_space s) else None)"

definition clean :: "jsstring \<Rightarrow> jsstring" where
  "clean latex =
     trim
      (replace_all re_spaces (\<lambda>g. js '' '')
        (replace_all re_linebreak (\<lambda>g. js '' '')
          (replace_all re_amp (\<lambda>g. js '' '')
            (replace_all (re_env ''end'') (\<lambda>g. [])
              (replace_all (re_env ''begin'') (\<lambda>g. [])
                (replace_all re_dollar (\<lambda>g. [])
                  (replace_all re_display (\<lambda>g. [])
                    (trim latex))))))))"

subsection \<open>toReadable\<close>

text \<open>
  \<open>/\\frac\{([^}]+)\}\{([^}]+)\}/g\<close>, and \<open>\name\{([^}]+)\}\<close> for \<open>sqrt\<close>,
  \<open>text\<close>, \<open>mathrm\<close> and \<open>mathbf\<close>.
\<close>

definition re_frac :: matcher where
  "re_frac s =
     (case strip_prefix (cmd ''frac'' @ js ''{'') s of
        None \<Rightarrow> None
      | Some r1 \<Rightarrow>
         (case until_close r1 of
            None \<Rightarrow> None
          | Some (a, r2) \<Rightarrow>
             (case strip_prefix (js ''{'') r2 of
                None \<Rightarrow> None
              | Some r3 \<Rightarrow>
                 (case until_close r3 of
                    None \<Rightarrow> None
                  | Some (b, r4) \<Rightarrow> Some ([a, b], r4)))))"

definition re_braced :: "jsstring \<Rightarrow> matcher" where
  "re_braced opening s =
     (case strip_prefix (opening @ js ''{'') s of
        None \<Rightarrow> None
      | Some r \<Rightarrow> (case until_close r of None \<Rightarrow> None | Some (a, r') \<Rightarrow> Some ([a], r')))"

text \<open>\<open>/\^(\w)/g\<close> and \<open>/_(\w)/g\<close>: the mark and one word character.\<close>

definition re_mark_word :: "jschar \<Rightarrow> matcher" where
  "re_mark_word mark s =
     (case s of
        c # d # r \<Rightarrow> if c = mark \<and> is_word d then Some ([[d]], r) else None
      | _ \<Rightarrow> None)"

text \<open>
  \<open>/\\sqrt\[(\d+)\]\{([^}]+)\}/g\<close>: the digits are the longest run, since the closing
  bracket that must follow is not a digit.
\<close>

definition re_sqrt_n :: matcher where
  "re_sqrt_n s =
     (case strip_prefix (cmd ''sqrt'' @ js ''['') s of
        None \<Rightarrow> None
      | Some r1 \<Rightarrow>
         (let n = takeWhile is_digit r1 in
          if n = [] then None
          else
           (case strip_prefix (js '']{'') (dropWhile is_digit r1) of
              None \<Rightarrow> None
            | Some r2 \<Rightarrow>
               (case until_close r2 of
                  None \<Rightarrow> None
                | Some (a, r3) \<Rightarrow> Some ([n, a], r3)))))"

text \<open>\<open>/\\[a-zA-Z]+/g\<close>: a backslash and the longest run of letters, not empty.\<close>

definition re_command :: matcher where
  "re_command s =
     (case s of
        c # r \<Rightarrow>
          if c = 92 \<and> takeWhile is_alpha r \<noteq> [] then Some ([], dropWhile is_alpha r) else None
      | [] \<Rightarrow> None)"

text \<open>\<open>/[{}]/g\<close>: an opening (123) or closing (125) brace.\<close>

definition re_brace :: matcher where
  "re_brace s = (case s of c # r \<Rightarrow> if c = 123 \<or> c = 125 then Some ([], r) else None | [] \<Rightarrow> None)"

text \<open>
  The replacement texts \<open>$1\<close>, \<open>($1)/($2)\<close> and the like, as functions of the
  capture groups.
\<close>

definition group1 :: "jsstring list \<Rightarrow> jsstring" where
  "group1 g = (case g of a # _ \<Rightarrow> a | [] \<Rightarrow> [])"

definition group2 :: "jsstring list \<Rightarrow> jsstring" where
  "group2 g = (case g of a # b # _ \<Rightarrow> b | _ \<Rightarrow> [])"

text \<open>
  The expression built from a key of the table, \<open>new RegExp(texCmd.replace(/\\/g, '\\\\'), 'g')\<close>,
  matches the key as a literal text: the keys are a backslash and letters, and the backslash
  is escaped.
\<close>

definition replace_symbols :: "jsstring \<Rightarrow> jsstring" where
  "replace_symbols latex =
     foldl (\<lambda>result (texCmd, symbol). replace_all (lit texCmd) (\<lambda>g. symbol) result) latex symbolMap"

definition toReadable :: "jsstring \<Rightarrow> jsstring" where
  "toReadable latex =
    (let result = replace_symbols latex;
         result = replace_all re_frac (\<lambda>g. js ''('' @ group1 g @ js '')/('' @ group2 g @ js '')'') result;
         result = replace_all (re_braced (js ''^'')) (\<lambda>g. js ''^('' @ group1 g @ js '')'') result;
         result = replace_all (re_braced (js ''_'')) (\<lambda>g. js ''_('' @ group1 g @ js '')'') result;
         result = replace_all (re_mark_word 94) (\<lambda>g. js ''^'' @ group1 g) result;
         result = replace_all (re_mark_word 95) (\<lambda>g. js ''_'' @ group1 g) result;
         result = replace_all (re_braced (cmd ''sqrt'')) (\<lambda>g. [8730] @ js ''('' @ group1 g @ js '')'') result;
         result = replace_all re_sqrt_n (\<lambda>g. group1 g @ [8730] @ js ''('' @ group2 g @ js '')'') result;
         result = replace_all (re_braced (cmd ''text'')) group1 result;
         result = replace_all (re_braced (cmd ''mathrm'')) group1 result;
         result = replace_all (re_braced (cmd ''mathbf'')) group1 result;
         result = replace_all re_command (\<lambda>g. []) result;
         result = replace_all re_brace (\<lambda>g. []) result
     in trim result)"

subsection \<open>extractVariables\<close>

record variable =
  symbol :: jsstring
  latex :: jsstring
  type :: jsstring

text \<open>
  The source collects the variables in a \<open>Set\<close> of objects. A \<open>Set\<close> compares objects
  by reference, so the objects live in a store (the address of an object is its index) and
  the set holds addresses, in insertion order. Every object literal allocates a new object.
\<close>

type_synonym store = "variable list"
type_synonym refset = "nat list"

definition alloc :: "variable \<Rightarrow> store \<Rightarrow> nat \<times> store" where
  "alloc obj h = (length h, h @ [obj])"

definition set_add :: "nat \<Rightarrow> refset \<Rightarrow> refset" where
  "set_add r S = (if r \<in> set S then S else S @ [r])"

definition add_object :: "variable \<Rightarrow> store \<times> refset \<Rightarrow> store \<times> refset" where
  "add_object obj st = (case st of (h, S) \<Rightarrow> (case alloc obj h of (r, h') \<Rightarrow> (h', set_add r S)))"

definition array_from :: "store \<times> refset \<Rightarrow> variable list" where
  "array_from st = (case st of (h, S) \<Rightarrow> map (\<lambda>r. h ! r) S)"

text \<open>
  \<open>/(?<![\\a-zA-Z])([a-zA-Z])(?![a-zA-Z])/g\<close>: a letter, not after a backslash or a
  letter, and not before a letter.
\<close>

definition re_latin :: "jschar option \<Rightarrow> matcher" where
  "re_latin prev s =
     (case s of
        c # r \<Rightarrow>
          if \<not> (case prev of Some p \<Rightarrow> p = 92 \<or> is_alpha p | None \<Rightarrow> False)
             \<and> is_alpha c
             \<and> \<not> (case r of d # _ \<Rightarrow> is_alpha d | [] \<Rightarrow> False)
          then Some ([[c]], r) else None
      | [] \<Rightarrow> None)"

text \<open>The array \<open>patterns\<close> of the source is never read and is left out.\<close>

definition extractVariables :: "jsstring \<Rightarrow> variable list" where
  "extractVariables ltx =
    (let variables = ([], []);
         variables =
           foldl (\<lambda>vs (c, sym).
                    if str_includes c ltx
                    then add_object \<lparr>symbol = sym, latex = c, type = js ''greek''\<rparr> vs
                    else vs)
                 variables symbolMap;
         variables =
           (case str_match re_latin ltx of
              None \<Rightarrow> variables
            | Some latinMatches \<Rightarrow>
                foldl (\<lambda>vs v.
                         if v \<notin> set [js ''d'', js ''e'', js ''i'']
                         then add_object \<lparr>symbol = v, latex = v, type = js ''latin''\<rparr> vs
                         else vs)
                      variables latinMatches)
     in array_from variables)"

subsection \<open>extractOperators\<close>

text \<open>
  \<open>/\\mathbb\{E\}|\\E\b/g\<close>, and \<open>/\\mathbb\{P\}|\\Pr?\b/g\<close>, where \<open>r?\<close> first takes
  an \<open>r\<close> and gives it back when the word boundary fails after it.
\<close>

definition re_expectation :: matcher where
  "re_expectation =
     alt [lit (cmd ''mathbb'' @ js ''{E}''),
          (\<lambda>s. case strip_prefix (cmd ''E'') s of
                  None \<Rightarrow> None
                | Some r \<Rightarrow> if at_word_end r then Some ([], r) else None)]"

definition re_probability :: matcher where
  "re_probability =
     alt [lit (cmd ''mathbb'' @ js ''{P}''),
          (\<lambda>s. case strip_prefix (cmd ''P'') s of
                  None \<Rightarrow> None
                | Some r \<Rightarrow>
                   (case (case strip_prefix (js ''r'') r of
                            None \<Rightarrow> None
                          | Some r' \<Rightarrow> if at_word_end r' then Some ([], r') else None) of
                      Some x \<Rightarrow> Some x
                    | None \<Rightarrow> if at_word_end r then Some ([], r) else None))]"

text \<open>\<open>/\\arg\s*\\max/g\<close> and \<open>/\\arg\s*\\min/g\<close>.\<close>

definition re_arg :: "string \<Rightarrow> matcher" where
  "re_arg name s =
     (case strip_prefix (cmd ''arg'') s of
        None \<Rightarrow> None
      | Some r \<Rightarrow> lit (cmd name) (dropWhile is_space r))"

definition opPatterns :: "(jsstring \<times> matcher) list" where
  "opPatterns =
    [(js ''sum'', lit (cmd ''sum'')),
     (js ''product'', lit (cmd ''prod'')),
     (js ''integral'', lit (cmd ''int'')),
     (js ''limit'', lit (cmd ''lim'')),
     (js ''expectation'', re_expectation),
     (js ''probability'', re_probability),
     (js ''gradient'', lit (cmd ''nabla'')),
     (js ''argmax'', re_arg ''max''),
     (js ''argmin'', re_arg ''min'')]"

text \<open>
  Each expression is created by the call and tested once, so every \<open>test\<close> starts at
  the beginning of the text.
\<close>

definition extractOperators :: "jsstring \<Rightarrow> jsstring list" where
  "extractOperators ltx =
     foldl (\<lambda>operators (name, pattern).
              if regex_test pattern ltx then operators @ [name] else operators)
           [] opPatterns"

subsection \<open>extractFunctions\<close>

text \<open>
  The expression for \<open>norm\<close> is \<open>/\\|\s*\|.*?\|\s*\\||\|.*?\|/g\<close>. Its unescaped bars
  split it into four alternatives: a backslash; \<open>\s*\|.*?\|\s*\\\<close>; the empty
  expression; \<open>\|.*?\|\<close>.
\<close>

definition re_bar_end :: "bool \<Rightarrow> matcher" where
  "re_bar_end closing s =
     (case strip_prefix (js ''|'') s of
        None \<Rightarrow> None
      | Some r \<Rightarrow> if closing then lit [92] (dropWhile is_space r) else Some ([], r))"

definition re_norm :: matcher where
  "re_norm =
     alt [lit [92],
          (\<lambda>s. case strip_prefix (js ''|'') (dropWhile is_space s) of
                  None \<Rightarrow> None
                | Some r \<Rightarrow> lazy_dot_then (re_bar_end True) r),
          lit [],
          (\<lambda>s. case strip_prefix (js ''|'') s of
                  None \<Rightarrow> None
                | Some r \<Rightarrow> lazy_dot_then (re_bar_end False) r)]"

definition funcPatterns :: "(jsstring \<times> matcher) list" where
  "funcPatterns =
    [(js ''exponential'', alt [lit (cmd ''exp''), lit (js ''e^'')]),
     (js ''logarithm'', alt [lit (cmd ''log''), lit (cmd ''ln'')]),
     (js ''softmax'', lit_ci (js ''softmax'')),
     (js ''sigmoid'', alt [lit_ci (js ''sigmoid''), lit_ci (cmd ''sigma'')]),
     (js ''relu'', lit_ci (js ''relu'')),
     (js ''tanh'', alt [lit_ci (cmd ''tanh''), lit_ci (js ''tanh'')]),
     (js ''loss'', alt [lit_ci (cmd ''mathcal'' @ js ''{L}''), lit_ci (js ''loss'')]),
     (js ''norm'', re_norm)]"

definition extractFunctions :: "jsstring \<Rightarrow> jsstring list" where
  "extractFunctions ltx =
     foldl (\<lambda>functions (name, pattern).
              if regex_test pattern ltx then functions @ [name] else functions)
           [] funcPatterns"

subsection \<open>countNesting and estimateComplexity\<close>

text \<open>
  The loop of \<open>countNesting\<close> visits code points; a brace is a single code unit and no
  half of a surrogate pair is one, so visiting code units gives the same counts. The
  state is the pair of \<open>maxDepth\<close> and \<open>currentDepth\<close>.
\<close>

definition countNesting :: "jsstring \<Rightarrow> int" where
  "countNesting ltx =
     fst (foldl (\<lambda>(maxDepth, currentDepth) char.
                   if char = 123 then (max maxDepth (currentDepth + 1), currentDepth + 1)
                   else if char = 125 then (maxDepth, currentDepth - 1)
                   else (maxDepth, currentDepth))
                (0, 0) ltx)"

text \<open>\<open>/\\(sum|prod|int|lim|frac)/g\<close> and \<open>/\\begin\{[pbvBV]?matrix\}/\<close>.\<close>

definition re_operator :: matcher where
  "re_operator s =
     (case strip_prefix [92] s of
        None \<Rightarrow> None
      | Some r \<Rightarrow>
          alt [lit (js ''sum''), lit (js ''prod''), lit (js ''int''), lit (js ''lim''),
               lit (js ''frac'')] r)"

definition re_matrix :: matcher where
  "re_matrix s =
     (case strip_prefix (cmd ''begin'' @ js ''{'') s of
        None \<Rightarrow> None
      | Some r \<Rightarrow>
         (case (case r of
                  c # r' \<Rightarrow> if c \<in> set (js ''pbvBV'') then lit (js ''matrix}'') r' else None
                | [] \<Rightarrow> None) of
            Some x \<Rightarrow> Some x
          | None \<Rightarrow> lit (js ''matrix}'') r))"

text \<open>The sum before the final \<open>Math.min(10, score)\<close>.\<close>

definition rawComplexity :: "jsstring \<Rightarrow> int" where
  "rawComplexity ltx =
    (let score = 1;
         score = score + min 3 (int (length ltx) div 50);
         depth = countNesting ltx;
         score = score + min 2 depth;
         opCount = int (length (case str_match (\<lambda>prev. re_operator) ltx of
                                  Some ms \<Rightarrow> ms | None \<Rightarrow> []));
         score = score + min 2 opCount;
         score = (if regex_test re_matrix ltx then score + 2 else score)
     in score)"

definition estimateComplexity :: "jsstring \<Rightarrow> int" where
  "estimateComplexity ltx = min 10 (rawComplexity ltx)"

subsection \<open>analyzeStructure\<close>

record "structure" =
  isEquation :: bool
  isInequality :: bool
  isDefinition :: bool
  hasSummation :: bool
  hasIntegral :: bool
  hasFraction :: bool
  hasMatrix :: bool
  complexity :: int
  eqtype :: jsstring

text \<open>\<open>/[<>\<le>\<ge>]/\<close>: one of the code units 60, 62, 8804, 8805.\<close>

definition re_compare :: matcher where
  "re_compare s =
     (case s of
        c # r \<Rightarrow> if c = 60 \<or> c = 62 \<or> c = 8804 \<or> c = 8805 then Some ([], r) else None
      | [] \<Rightarrow> None)"

text \<open>The field \<open>type\<close> of the structure is \<open>eqtype\<close> here.\<close>

definition analyzeStructure :: "jsstring \<Rightarrow> structure" where
  "analyzeStructure ltx =
    (let summation = regex_test (lit (cmd ''sum'')) ltx;
         matrix = regex_test re_matrix ltx
     in \<lparr>isEquation = str_includes (js ''='') ltx,
         isInequality = regex_test re_compare ltx,
         isDefinition = (str_includes (js '':='') ltx \<or> str_includes (cmd ''triangleq'') ltx),
         hasSummation = summation,
         hasIntegral = regex_test (lit (cmd ''int'')) ltx,
         hasFraction = regex_test (lit (cmd ''frac'')) ltx,
         hasMatrix = matrix,
         complexity = estimateComplexity ltx,
         eqtype =
           (if summation \<and> (str_includes (js ''loss'') ltx \<or> str_includes (cmd ''mathcal'' @ js ''{L}'') ltx)
            then js ''loss_function''
            else if str_includes (cmd ''nabla'') ltx \<or> str_includes (cmd ''partial'') ltx
            then js ''gradient''
            else if str_includes (cmd ''mathbb'' @ js ''{E}'') ltx \<or> str_includes (cmd ''Pr'') ltx
            then js ''probability''
            else if matrix then js ''matrix_operation''
            else if summation then js ''summation''
            else js ''general'')\<rparr>)"

subsection \<open>parse\<close>

record parsed =
  original :: jsstring
  cleaned :: jsstring
  readable :: jsstring
  variables :: "variable list"
  operators :: "jsstring list"
  functions' :: "jsstring list"
  struct :: "structure"

definition parse :: "jsstring \<Rightarrow> parsed" where
  "parse ltx =
    (let cleaned = clean ltx
     in \<lparr>original = ltx,
         cleaned = cleaned,
         readable = toReadable cleaned,
         variables = extractVariables cleaned,
         operators = extractOperators cleaned,
         functions' = extractFunctions cleaned,
         struct = analyzeStructure cleaned\<rparr>)"

subsection \<open>Notions used in the proofs\<close>

text \<open>
  A matcher is consuming when every match is a non-empty prefix of the text and what it
  returns is the rest. A text is whitespace-normal when each of its whitespace characters
  is a single space (32) that no whitespace character follows.
\<close>

definition consuming :: "matcher \<Rightarrow> bool" where
  "consuming m \<longleftrightarrow> (\<forall>s g rest. m s = Some (g, rest) \<longrightarrow> (\<exists>p. p \<noteq> [] \<and> s = p @ rest))"

fun ws_normal :: "jsstring \<Rightarrow> bool" where
  "ws_normal [] = True"
| "ws_normal [c] = (is_space c \<longrightarrow> c = 32)"
| "ws_normal (c # d # s) = ((is_space c \<longrightarrow> c = 32 \<and> \<not> is_space d) \<and> ws_normal (d # s))"

subsection \<open>Example inputs\<close>

text \<open>\<open>\begin{pmatrix} a & b \\ c & d \end{pmatrix}\<close>\<close>

definition matrix_input :: jsstring where
  "matrix_input =
     cmd ''begin'' @ js ''{pmatrix} a & b '' @ [92, 92] @ js '' c & d '' @ cmd ''end'' @ js ''{pmatrix}''"

text \<open>\<open>\$[\<close>: a backslash, a dollar sign and an opening square bracket.\<close>

definition dollar_input :: jsstring where
  "dollar_input = [92] @ js ''$[''"

text \<open>\<open>$$ \alpha & \beta \\ \gamma $$\<close>\<close>

definition aligned_input :: jsstring where
  "aligned_input =
     js ''$$ '' @ cmd ''alpha'' @ js '' & '' @ cmd ''beta'' @ js '' '' @ [92, 92] @ js '' '' @
     cmd ''gamma'' @ js '' $$''"

text \<open>\<open>\mathbb{P}(A)\<close>\<close>

definition prob_input :: jsstring where
  "prob_input = cmd ''mathbb'' @ js ''{P}(A)''"

text \<open>\<open>\alpha + \beta = \gamma\<close>\<close>

definition greek_input :: jsstring where
  "greek_input = cmd ''alpha'' @ js '' + '' @ cmd ''beta'' @ js '' = '' @ cmd ''gamma''"

section \<open>Evaluation\<close>

lemmas char_defs =
  js_def cmd_def is_space_def is_alpha_def is_digit_def is_word_def is_line_terminator_def
  canonicalize_def

lemmas regex_defs = lit_def lit_ci_def until_close_def at_word_end_def str_match_def Let_def

lemmas clean_defs =
  clean_def trim_def re_display_def re_dollar_def re_env_def re_amp_def re_linebreak_def
  re_spaces_def

lemmas readable_defs =
  toReadable_def replace_symbols_def symbolMap_def trim_def re_frac_def re_braced_def
  re_mark_word_def re_sqrt_n_def re_command_def re_brace_def group1_def group2_def

lemmas variables_defs =
  extractVariables_def symbolMap_def alloc_def set_add_def add_object_def array_from_def
  re_latin_def

lemmas operators_defs =
  extractOperators_def opPatterns_def re_expectation_def re_probability_def re_arg_def

lemmas functions_defs = extractFunctions_def funcPatterns_def re_bar_end_def re_norm_def

lemmas structure_defs =
  analyzeStructure_def estimateComplexity_def rawComplexity_def countNesting_def
  re_operator_def re_matrix_def re_compare_def

lemma parse_fields:
  "original (parse x) = x"
  "cleaned (parse x) = clean x"
  "readable (parse x) = toReadable (clean x)"
  "variables (parse x) = extractVariables (clean x)"
  "operators (parse x) = extractOperators (clean x)"
  "functions' (parse x) = extractFunctions (clean x)"
  "struct (parse x) = analyzeStructure (clean x)"
  by (simp_all add: parse_def Let_def)

section \<open>Matrix environments\<close>

lemma clean_matrix_input: "clean matrix_input = js ''a b c d''"
  by (simp add: matrix_input_def char_defs regex_defs clean_defs)

lemma matrix_input_marker: "regex_test re_matrix matrix_input"
  by (simp add: matrix_input_def char_defs regex_defs re_matrix_def)

lemma structure_abcd:
  "\<not> hasMatrix (analyzeStructure (js ''a b c d''))"
  "rawComplexity (js ''a b c d'') = 1"
  "complexity (analyzeStructure (js ''a b c d'')) = 1"
  "eqtype (analyzeStructure (js ''a b c d'')) = js ''general''"
  by (simp_all add: char_defs regex_defs structure_defs)

text \<open>
  C1. The input \<open>\begin{pmatrix} a & b \\ c & d \end{pmatrix}\<close> contains a matrix
  environment marker, but \<open>parse\<close> analyses the cleaned text \<open>a b c d\<close>, from which
  \<open>clean\<close> has removed the marker: \<open>hasMatrix\<close> is false, the complexity sum is 1,
  without the 2 for the matrix, and the type is \<open>general\<close>, not \<open>matrix_operation\<close>.
\<close>

theorem parse_matrix_marker_lost:
  "regex_test re_matrix matrix_input \<and>
   cleaned (parse matrix_input) = js ''a b c d'' \<and>
   \<not> hasMatrix (struct (parse matrix_input)) \<and>
   rawComplexity (cleaned (parse matrix_input)) = 1 \<and>
   complexity (struct (parse matrix_input)) = 1 \<and>
   eqtype (struct (parse matrix_input)) = js ''general''"
  by (simp only: parse_fields clean_matrix_input matrix_input_marker structure_abcd simp_thms)

section \<open>Symbol substitution\<close>

text \<open>
  C4. For the input \<open>\cdots\<close> the substitution for \<open>\cdot\<close>, which comes earlier
  in the table, replaces the first five code units of the token, and the entry for
  \<open>\cdots\<close> never applies: the readable text is the middle dot (183) followed by
  \<open>s\<close>, not the glyph 8943 of the table.
\<close>

theorem toReadable_cdots_corrupted:
  "toReadable (cmd ''cdots'') = [183] @ js ''s'' \<and>
   readable (parse (cmd ''cdots'')) = [183] @ js ''s'' \<and>
   (cmd ''cdots'', [8943]) \<in> set symbolMap"
proof -
  have c: "clean (cmd ''cdots'') = cmd ''cdots''"
    by (simp add: char_defs regex_defs clean_defs)
  have r: "toReadable (cmd ''cdots'') = [183] @ js ''s''"
    by (simp add: char_defs regex_defs readable_defs)
  have m: "(cmd ''cdots'', [8943]) \<in> set symbolMap"
    by (simp add: symbolMap_def)
  show ?thesis
    by (simp only: parse_fields c r m simp_thms)
qed

section \<open>Classification\<close>

text \<open>
  C5. For the input \<open>\mathbb{P}(A)\<close> the operators list reports the probability
  operator, neither the loss rule nor the gradient rule matches, and the type is
  \<open>general\<close>: the type rule only looks for \<open>\mathbb{E}\<close> and \<open>\Pr\<close>.
\<close>

theorem probability_operator_typed_general:
  "operators (parse prob_input) = [js ''probability''] \<and>
   \<not> hasSummation (struct (parse prob_input)) \<and>
   \<not> str_includes (cmd ''nabla'') (cleaned (parse prob_input)) \<and>
   \<not> str_includes (cmd ''partial'') (cleaned (parse prob_input)) \<and>
   eqtype (struct (parse prob_input)) = js ''general''"
proof -
  have c: "clean prob_input = prob_input"
    by (simp add: prob_input_def char_defs regex_defs clean_defs)
  have ops: "extractOperators prob_input = [js ''probability'']"
    by (simp add: prob_input_def char_defs regex_defs operators_defs)
  have st: "\<not> hasSummation (analyzeStructure prob_input)"
    "eqtype (analyzeStructure prob_input) = js ''general''"
    by (simp_all add: prob_input_def char_defs regex_defs structure_defs)
  have inc: "\<not> str_includes (cmd ''nabla'') prob_input"
    "\<not> str_includes (cmd ''partial'') prob_input"
    by (simp_all add: prob_input_def char_defs)
  show ?thesis
    by (simp only: parse_fields c ops st inc simp_thms)
qed

section \<open>Variables\<close>

text \<open>
  C6. For the input \<open>x + x\<close> the variables list has two entries with the symbol
  \<open>x\<close>: each match adds a new object to the set, and the set tells objects apart by
  reference.
\<close>

theorem variables_duplicate_symbol:
  "variables (parse (js ''x + x'')) =
     [\<lparr>symbol = js ''x'', latex = js ''x'', type = js ''latin''\<rparr>,
      \<lparr>symbol = js ''x'', latex = js ''x'', type = js ''latin''\<rparr>] \<and>
   \<not> distinct (map symbol (variables (parse (js ''x + x''))))"
proof -
  have c: "clean (js ''x + x'') = js ''x + x''"
    by (simp add: char_defs regex_defs clean_defs)
  have v: "extractVariables (js ''x + x'') =
     [\<lparr>symbol = js ''x'', latex = js ''x'', type = js ''latin''\<rparr>,
      \<lparr>symbol = js ''x'', latex = js ''x'', type = js ''latin''\<rparr>]"
    by (simp add: char_defs regex_defs variables_defs)
  show ?thesis
    by (simp add: parse_fields c v)
qed

section \<open>The norm tag\<close>

lemma re_norm_matches: "re_norm s \<noteq> None"
  by (simp add: re_norm_def lit_def split: option.splits)

lemma regex_test_re_norm: "regex_test re_norm s"
  by (cases s) (simp_all add: re_norm_matches)

lemma extractFunctions_norm: "js ''norm'' \<in> set (extractFunctions s)"
  by (simp add: extractFunctions_def funcPatterns_def regex_test_re_norm)

text \<open>
  C7. The input \<open>\alpha\<close> has no vertical bar, and its functions list is the single
  tag \<open>norm\<close>. The expression for \<open>norm\<close> has an empty alternative, which matches
  at the start of every text, so every input is tagged.
\<close>

theorem norm_tag_without_bars:
  "124 \<notin> set (cmd ''alpha'') \<and>
   functions' (parse (cmd ''alpha'')) = [js ''norm''] \<and>
   (\<forall>x. js ''norm'' \<in> set (functions' (parse x)))"
proof -
  have c: "clean (cmd ''alpha'') = cmd ''alpha''"
    by (simp add: char_defs regex_defs clean_defs)
  have f: "extractFunctions (cmd ''alpha'') = [js ''norm'']"
    by (simp add: char_defs regex_defs functions_defs)
  have b: "124 \<notin> set (cmd ''alpha'')"
    by (simp add: char_defs)
  show ?thesis
    by (simp only: parse_fields c f b extractFunctions_norm simp_thms)
qed

section \<open>A worked example\<close>

text \<open>
  C9. For the input \<open>\alpha + \beta = \gamma\<close> the readable text is the three glyphs
  (945, 946, 947) with the operators between them, \<open>isEquation\<close> is true, and the
  variables are the three Greek letters.
\<close>

theorem parse_greek_example:
  "readable (parse greek_input) = [945] @ js '' + '' @ [946] @ js '' = '' @ [947] \<and>
   isEquation (struct (parse greek_input)) \<and>
   variables (parse greek_input) =
     [\<lparr>symbol = [945], latex = cmd ''alpha'', type = js ''greek''\<rparr>,
      \<lparr>symbol = [946], latex = cmd ''beta'', type = js ''greek''\<rparr>,
      \<lparr>symbol = [947], latex = cmd ''gamma'', type = js ''greek''\<rparr>]"
proof -
  have c: "clean greek_input = greek_input"
    by (simp add: greek_input_def char_defs regex_defs clean_defs)
  have r: "toReadable greek_input = [945] @ js '' + '' @ [946] @ js '' = '' @ [947]"
    by (simp add: greek_input_def char_defs regex_defs readable_defs)
  have e: "isEquation (analyzeStructure greek_input)"
    by (simp add: greek_input_def char_defs analyzeStructure_def Let_def)
  have v: "extractVariables greek_input =
     [\<lparr>symbol = [945], latex = cmd ''alpha'', type = js ''greek''\<rparr>,
      \<lparr>symbol = [946], latex = cmd ''beta'', type = js ''greek''\<rparr>,
      \<lparr>symbol = [947], latex = cmd ''gamma'', type = js ''greek''\<rparr>]"
    by (simp add: greek_input_def char_defs regex_defs variables_defs)
  show ?thesis
    by (simp only: parse_fields c r e v simp_thms)
qed

section \<open>Global replacement with a consuming matcher\<close>

lemma consumingD:
  assumes "consuming m" "m s = Some (g, rest)"
  shows "length rest < length s" "set rest \<subseteq> set s"
proof -
  obtain p where p: "p \<noteq> []" "s = p @ rest"
    using assms unfolding consuming_def by blast
  show "length rest < length s" using p by simp
  show "set rest \<subseteq> set s" using p by auto
qed

lemma consuming_Nil: "consuming m \<Longrightarrow> m [] = None"
  unfolding consuming_def by (cases "m []") auto

lemma replace_all_Cons:
  assumes "consuming m"
  shows "replace_all m rep (c # cs) =
     (case m (c # cs) of Some (g, rest) \<Rightarrow> rep g @ replace_all m rep rest
      | None \<Rightarrow> c # replace_all m rep cs)"
proof (cases "m (c # cs)")
  case None
  then show ?thesis by simp
next
  case (Some x)
  obtain g rest where x: "x = (g, rest)" by (cases x)
  have "length rest < length (c # cs)"
    using consumingD(1) [OF assms, of "c # cs" g rest] Some x by simp
  then show ?thesis using Some x by simp
qed

lemma replace_all_Nil: "consuming m \<Longrightarrow> replace_all m rep [] = []"
  by (simp add: consuming_Nil)

lemma replace_all_id: "\<not> regex_test m s \<Longrightarrow> replace_all m rep s = s"
  by (induction s) (auto split: option.splits)

lemma regex_test_append: "regex_test m s \<Longrightarrow> regex_test m (p @ s)"
  by (induction p) (auto)

lemma replace_all_subset:
  assumes c: "consuming m" and rep: "\<And>g. set (rep g) \<subseteq> A"
  shows "set (replace_all m rep s) \<subseteq> set s \<union> A"
proof (induction s rule: length_induct)
  case (1 s)
  show ?case
  proof (cases s)
    case Nil
    show ?thesis unfolding Nil replace_all_Nil [OF c] by simp
  next
    case (Cons a as)
    show ?thesis
    proof (cases "m (a # as)")
      case None
      then have "replace_all m rep s = a # replace_all m rep as"
        using Cons by simp
      moreover have "set (replace_all m rep as) \<subseteq> set as \<union> A"
        using 1 [rule_format, of as] Cons by simp
      ultimately show ?thesis using Cons by auto
    next
      case (Some x)
      obtain g rest where x: "x = (g, rest)" by (cases x)
      have l: "length rest < length s" "set rest \<subseteq> set s"
        using consumingD [OF c, of s g rest] Some x Cons by simp_all
      have "replace_all m rep s = rep g @ replace_all m rep rest"
        using Some x Cons l(1) by simp
      moreover have "set (replace_all m rep rest) \<subseteq> set rest \<union> A"
        using 1 [rule_format, of rest] l by simp
      ultimately show ?thesis using l rep [of g] by auto
    qed
  qed
qed

lemma strip_prefix_Some: "strip_prefix p s = Some r \<Longrightarrow> s = p @ r"
  by (induction p s rule: strip_prefix.induct) (auto split: if_splits)

lemma strip_prefix_append: "strip_prefix p s = Some r \<Longrightarrow> strip_prefix p (s @ q) = Some (r @ q)"
  by (induction p s rule: strip_prefix.induct) (auto split: if_splits)

lemma consuming_lit: "p \<noteq> [] \<Longrightarrow> consuming (lit p)"
  unfolding consuming_def lit_def
  by (auto split: option.splits dest: strip_prefix_Some)

lemma consuming_alt: "(\<And>m. m \<in> set ms \<Longrightarrow> consuming m) \<Longrightarrow> consuming (alt ms)"
proof (induction ms)
  case Nil
  show ?case by (simp add: consuming_def)
next
  case (Cons a ms)
  have a: "consuming a" and ms: "consuming (alt ms)" using Cons by simp_all
  show ?case
    unfolding consuming_def
  proof (intro allI impI)
    fix s g rest
    assume h: "alt (a # ms) s = Some (g, rest)"
    show "\<exists>p. p \<noteq> [] \<and> s = p @ rest"
    proof (cases "a s")
      case None
      then have "alt ms s = Some (g, rest)" using h by simp
      then show ?thesis using ms unfolding consuming_def by blast
    next
      case (Some x)
      then have "a s = Some (g, rest)" using h by simp
      then show ?thesis using a unfolding consuming_def by blast
    qed
  qed
qed

lemma until_close_Some: "until_close s = Some (body, r) \<Longrightarrow> s = body @ 125 # r"
proof -
  assume h: "until_close s = Some (body, r)"
  let ?d = "dropWhile (\<lambda>c. c \<noteq> 125) s"
  have b: "body = takeWhile (\<lambda>c. c \<noteq> 125) s" and d: "?d \<noteq> []" and r: "r = tl ?d"
    using h by (auto simp: until_close_def Let_def split: if_splits)
  have "hd ?d = 125" using hd_dropWhile [OF d] by simp
  then have "?d = 125 # r" using d r by (cases ?d) auto
  then show ?thesis using b takeWhile_dropWhile_id [of "\<lambda>c. c \<noteq> 125" s] by simp
qed

lemma consuming_re_env: "consuming (re_env name)"
  unfolding consuming_def re_env_def
  by (auto split: option.splits dest!: strip_prefix_Some until_close_Some simp: cmd_def)

lemma consuming_re_spaces: "consuming re_spaces"
  unfolding consuming_def re_spaces_def
proof (intro allI impI)
  fix s g rest
  assume "(if takeWhile is_space s \<noteq> [] then Some ([], dropWhile is_space s) else None) = Some (g, rest)"
  then have "takeWhile is_space s \<noteq> []" "rest = dropWhile is_space s"
    by (auto split: if_splits)
  then show "\<exists>p. p \<noteq> [] \<and> s = p @ rest"
    using takeWhile_dropWhile_id [of is_space s] by metis
qed

lemma consuming_clean:
  "consuming re_display" "consuming re_dollar" "consuming re_amp" "consuming re_linebreak"
  unfolding re_display_def re_dollar_def re_amp_def re_linebreak_def
  by (auto intro!: consuming_alt consuming_lit)


lemma replace_all_removes:
  assumes c: "consuming m"
    and hit: "\<And>c cs. P c \<Longrightarrow> m (c # cs) \<noteq> None"
    and rep: "\<And>g x. x \<in> set (rep g) \<Longrightarrow> \<not> P x"
  shows "\<forall>x\<in>set (replace_all m rep s). \<not> P x"
proof (induction s rule: length_induct)
  case (1 s)
  show ?case
  proof (cases s)
    case Nil
    show ?thesis unfolding Nil replace_all_Nil [OF c] by simp
  next
    case (Cons a as)
    show ?thesis
    proof (cases "m (a # as)")
      case None
      then have "\<not> P a" using hit by blast
      moreover have "replace_all m rep s = a # replace_all m rep as"
        using None Cons by simp
      moreover have "\<forall>y\<in>set (replace_all m rep as). \<not> P y"
        using 1 [rule_format, of as] Cons by simp
      ultimately show ?thesis by simp
    next
      case (Some x)
      obtain g rest where x: "x = (g, rest)" by (cases x)
      have l: "length rest < length s"
        using consumingD(1) [OF c, of s g rest] Some x Cons by simp
      then have "replace_all m rep s = rep g @ replace_all m rep rest"
        using Some x Cons by simp
      moreover have "\<forall>y\<in>set (replace_all m rep rest). \<not> P y"
        using 1 [rule_format, of rest] l by simp
      ultimately show ?thesis using rep by auto
    qed
  qed
qed

lemma regex_test_re_dollar: "regex_test re_dollar s \<longleftrightarrow> 36 \<in> set s"
  by (induction s) (auto simp: re_dollar_def lit_def split: option.splits if_splits)

lemma regex_test_re_amp: "regex_test re_amp s \<longleftrightarrow> 38 \<in> set s"
  by (induction s) (auto simp: re_amp_def lit_def split: option.splits if_splits)

subsection \<open>trim\<close>

lemma dropWhile_snoc_keep: "\<not> P a \<Longrightarrow> \<exists>zs. dropWhile P (xs @ [a]) = zs @ [a]"
  by (induction xs) auto

lemma trim_decomp: "\<exists>pre post. s = pre @ trim s @ post"
proof -
  let ?w = "dropWhile is_space s"
  have e: "takeWhile is_space (rev ?w) @ dropWhile is_space (rev ?w) = rev ?w"
    by (rule takeWhile_dropWhile_id)
  have "?w = rev (takeWhile is_space (rev ?w) @ dropWhile is_space (rev ?w))"
    unfolding e by simp
  then have "?w = trim s @ rev (takeWhile is_space (rev ?w))"
    by (simp only: rev_append trim_def)
  moreover have "s = takeWhile is_space s @ ?w" by simp
  ultimately have "s = takeWhile is_space s @ trim s @ rev (takeWhile is_space (rev ?w))"
    by simp
  then show ?thesis by blast
qed

lemma trim_head: "trim s = c # t \<Longrightarrow> \<not> is_space c"
proof -
  assume h: "trim s = c # t"
  let ?w = "dropWhile is_space s"
  have w: "?w \<noteq> []"
  proof
    assume e: "?w = []"
    have "trim s = []" unfolding trim_def e by simp
    with h show False by simp
  qed
  then obtain a w' where aw: "?w = a # w'" by (cases ?w) auto
  have a: "\<not> is_space a" using hd_dropWhile [OF w] aw by simp
  obtain zs where "dropWhile is_space (rev w' @ [a]) = zs @ [a]"
    using dropWhile_snoc_keep [of is_space a "rev w'"] a by blast
  then have "trim s = a # rev zs" by (simp add: trim_def aw)
  then show ?thesis using h a by simp
qed

lemma trim_idem: "trim (trim s) = trim s"
proof -
  have d: "dropWhile is_space (trim s) = trim s"
  proof (cases "trim s")
    case Nil
    then show ?thesis by simp
  next
    case (Cons c t)
    then show ?thesis using trim_head [OF Cons] by simp
  qed
  have "rev (trim s) = dropWhile is_space (rev (dropWhile is_space s))"
    by (simp add: trim_def)
  then have "dropWhile is_space (rev (trim s)) = rev (trim s)"
    by simp
  then show ?thesis using d by (simp add: trim_def [of "trim s"])
qed

lemma set_trim: "set (trim s) \<subseteq> set s"
proof -
  obtain pre post where "s = pre @ trim s @ post" using trim_decomp by blast
  then have "set s = set pre \<union> set (trim s) \<union> set post" by (metis set_append Un_assoc)
  then show ?thesis by blast
qed

section \<open>Complexity\<close>

lemma countNesting_step:
  "m \<le> fst (foldl (\<lambda>(maxDepth, currentDepth) char.
                   if char = 123 then (max maxDepth (currentDepth + 1), currentDepth + 1)
                   else if char = 125 then (maxDepth, currentDepth - 1)
                   else (maxDepth, currentDepth)) (m :: int, c :: int) (s :: jsstring))"
proof (induction s arbitrary: m c)
  case Nil
  show ?case by simp
next
  case (Cons a s)
  consider "a = 123" | "a = 125" | "a \<noteq> 123" "a \<noteq> 125" by blast
  then show ?case
  proof cases
    case 1
    have "max m (c + 1) \<le> fst (foldl (\<lambda>(maxDepth, currentDepth) char.
                   if char = 123 then (max maxDepth (currentDepth + 1), currentDepth + 1)
                   else if char = 125 then (maxDepth, currentDepth - 1)
                   else (maxDepth, currentDepth)) (max m (c + 1), c + 1) s)"
      by (rule Cons.IH)
    then show ?thesis using 1 by simp
  next
    case 2
    then show ?thesis using Cons.IH [of m "c - 1"] by simp
  next
    case 3
    then show ?thesis using Cons.IH [of m c] by simp
  qed
qed

lemma countNesting_nonneg: "0 \<le> countNesting s"
  unfolding countNesting_def by (rule countNesting_step)

lemma rawComplexity_range: "1 \<le> rawComplexity s \<and> rawComplexity s \<le> 10"
proof -
  define a where "a = min 3 (int (length s) div 50)"
  define d where "d = min 2 (countNesting s)"
  define k where "k = min 2 (int (length (case str_match (\<lambda>prev. re_operator) s of
                                  Some ms \<Rightarrow> ms | None \<Rightarrow> [])))"
  have r: "rawComplexity s = (if regex_test re_matrix s then 1 + a + d + k + 2 else 1 + a + d + k)"
    unfolding rawComplexity_def Let_def a_def d_def k_def by simp
  have a: "0 \<le> a" "a \<le> 3" by (simp_all add: a_def)
  have d: "0 \<le> d" "d \<le> 2" using countNesting_nonneg [of s] by (simp_all add: d_def)
  have k: "0 \<le> k" "k \<le> 2" by (simp_all add: k_def)
  show ?thesis using a d k by (simp add: r)
qed

lemma rawComplexity_empty: "rawComplexity [] = 1"
  by (simp add: char_defs regex_defs structure_defs)

lemma clean_empty: "clean [] = []"
  by (simp add: char_defs regex_defs clean_defs)

text \<open>
  C3. For every text the complexity score is an integer from 1 to 10, in
  \<open>estimateComplexity\<close> and in the field \<open>complexity\<close> of the structure that
  \<open>parse\<close> returns, and it is 1 for the empty text.
\<close>

theorem complexity_range:
  "1 \<le> estimateComplexity s \<and> estimateComplexity s \<le> 10 \<and>
   complexity (struct (parse x)) = estimateComplexity (clean x) \<and>
   1 \<le> complexity (struct (parse x)) \<and> complexity (struct (parse x)) \<le> 10 \<and>
   estimateComplexity [] = 1 \<and> complexity (struct (parse [])) = 1"
proof -
  have e: "1 \<le> estimateComplexity t \<and> estimateComplexity t \<le> 10" for t
    using rawComplexity_range [of t] by (simp add: estimateComplexity_def)
  have c: "complexity (analyzeStructure t) = estimateComplexity t" for t
    by (simp add: analyzeStructure_def Let_def)
  have z: "estimateComplexity [] = 1"
    by (simp add: estimateComplexity_def rawComplexity_empty)
  show ?thesis
    using e [of s] e [of "clean x"] by (simp add: parse_fields c clean_empty z)
qed

section \<open>Braces in the readable text\<close>

lemma consuming_re_brace: "consuming re_brace"
  unfolding consuming_def
proof (intro allI impI)
  fix s g rest
  assume "re_brace s = Some (g, rest)"
  then obtain c where "s = c # rest"
    by (cases s) (auto simp: re_brace_def split: if_splits)
  then have "[c] \<noteq> [] \<and> s = [c] @ rest" by simp
  then show "\<exists>p. p \<noteq> [] \<and> s = p @ rest" by blast
qed

lemma re_brace_hit: "c = 123 \<or> c = 125 \<Longrightarrow> re_brace (c # cs) \<noteq> None"
  by (auto simp: re_brace_def)

text \<open>
  C10. For every input the readable text that \<open>parse\<close> returns contains neither an
  opening (123) nor a closing (125) brace.
\<close>

theorem readable_no_braces:
  "123 \<notin> set (readable (parse x)) \<and> 125 \<notin> set (readable (parse x))"
proof -
  have "\<forall>c\<in>set (replace_all re_brace (\<lambda>g. []) t). \<not> (c = 123 \<or> c = 125)" for t
    by (rule replace_all_removes) (simp_all add: consuming_re_brace re_brace_hit)
  then have "\<forall>c\<in>set (toReadable t). \<not> (c = 123 \<or> c = 125)" for t
    unfolding toReadable_def Let_def using set_trim by blast
  then show ?thesis
    unfolding parse_fields by blast
qed

section \<open>Idempotence of clean\<close>

lemma space_text: "js '' '' = [32]"
  by (simp add: js_def)

lemma not_regex_test_Cons:
  assumes "\<not> regex_test m (c # cs)"
  shows "m (c # cs) = None" "\<not> regex_test m cs"
  using assms by (cases "m (c # cs)"; simp)+

lemma not_regex_test_ConsI: "m (c # cs) = None \<Longrightarrow> \<not> regex_test m cs \<Longrightarrow> \<not> regex_test m (c # cs)"
  by simp

lemma re_linebreak_iff: "re_linebreak s = None \<longleftrightarrow> (\<forall>t. s \<noteq> 92 # 92 # t)"
proof (cases s)
  case Nil
  then show ?thesis by (simp add: re_linebreak_def lit_def)
next
  case (Cons a as)
  then show ?thesis
    by (cases as) (auto simp: re_linebreak_def lit_def split: option.splits if_splits)
qed

lemma re_linebreak_Cons: "re_linebreak (a # u) = None \<longleftrightarrow> \<not> (a = 92 \<and> (\<exists>t. u = 92 # t))"
  unfolding re_linebreak_iff by auto

lemma re_linebreak_SomeD: "re_linebreak (a # u) \<noteq> None \<Longrightarrow> a = 92 \<and> (\<exists>t. u = 92 # t)"
  using re_linebreak_Cons [of a u] by simp

lemma re_linebreak_NoneD: "re_linebreak (a # u) = None \<Longrightarrow> a = 92 \<Longrightarrow> u \<noteq> 92 # t"
  using re_linebreak_Cons [of a u] by simp

lemma re_spaces_Some: "re_spaces s = Some (g, rest) \<Longrightarrow> rest = dropWhile is_space s"
  by (auto simp: re_spaces_def split: if_splits)

text \<open>The first code unit of a replaced text.\<close>

lemma replace_all_head:
  assumes c: "consuming m" and r: "replace_all m (\<lambda>g. [k]) s = a # t"
  shows "a = k \<or> (\<exists>u. s = a # u \<and> m s = None)"
proof (cases s)
  case Nil
  then show ?thesis using r replace_all_Nil [OF c] by simp
next
  case (Cons d ds)
  show ?thesis
  proof (cases "m (d # ds)")
    case None
    then show ?thesis using r Cons by simp
  next
    case (Some x)
    obtain g rest where x: "x = (g, rest)" by (cases x)
    have "replace_all m (\<lambda>g. [k]) s = [k] @ replace_all m (\<lambda>g. [k]) rest"
      using Some x Cons by (simp add: replace_all_Cons [OF c] del: replace_all.simps)
    then show ?thesis using r by simp
  qed
qed

lemma linebreak_replaced:
  "\<not> regex_test re_linebreak (replace_all re_linebreak (\<lambda>g. [32]) s)"
proof (induction s rule: length_induct)
  case (1 s)
  note c = consuming_clean(4)
  let ?R = "replace_all re_linebreak (\<lambda>g. [32])"
  show ?case
  proof (cases s)
    case Nil
    show ?thesis unfolding Nil replace_all_Nil [OF c] by (simp add: re_linebreak_def lit_def)
  next
    case (Cons a as)
    show ?thesis
    proof (cases "re_linebreak (a # as)")
      case None
      have e: "?R s = a # ?R as" using None Cons by simp
      have ih: "\<not> regex_test re_linebreak (?R as)"
        using 1 [rule_format, of as] Cons by simp
      have "re_linebreak (a # ?R as) = None"
      proof (rule ccontr)
        assume "re_linebreak (a # ?R as) \<noteq> None"
        then have "a = 92 \<and> (\<exists>t. ?R as = 92 # t)"
          by (rule re_linebreak_SomeD)
        then obtain t where t: "a = 92" "?R as = 92 # t" by blast
        then have "\<exists>u. as = 92 # u"
          using replace_all_head [OF c, of 32 as 92 t] by auto
        then show False using re_linebreak_NoneD [OF None t(1)] by blast
      qed
      then show ?thesis unfolding e using ih by (rule not_regex_test_ConsI)
    next
      case (Some x)
      obtain g rest where x: "x = (g, rest)" by (cases x)
      have l: "length rest < length s"
        using consumingD(1) [OF c, of s g rest] Some x Cons by simp
      have e: "?R s = 32 # ?R rest"
        using Some x Cons l by simp
      have ih: "\<not> regex_test re_linebreak (?R rest)"
        using 1 [rule_format, of rest] l by simp
      have "re_linebreak (32 # ?R rest) = None"
        using re_linebreak_Cons [of 32 "?R rest"] by simp
      then show ?thesis unfolding e using ih by (rule not_regex_test_ConsI)
    qed
  qed
qed

lemma regex_test_suffix: "\<not> regex_test m (p @ s) \<Longrightarrow> \<not> regex_test m s"
  using regex_test_append by blast

lemma regex_test_dropWhile: "\<not> regex_test m s \<Longrightarrow> \<not> regex_test m (dropWhile P s)"
  using regex_test_suffix [of m "takeWhile P s" "dropWhile P s"] by simp

lemma linebreak_spaces:
  "\<not> regex_test re_linebreak s \<Longrightarrow>
   \<not> regex_test re_linebreak (replace_all re_spaces (\<lambda>g. [32]) s)"
proof (induction s rule: length_induct)
  case (1 s)
  note c = consuming_re_spaces
  let ?R = "replace_all re_spaces (\<lambda>g. [32])"
  show ?case
  proof (cases s)
    case Nil
    show ?thesis unfolding Nil replace_all_Nil [OF c] by (simp add: re_linebreak_def lit_def)
  next
    case (Cons a as)
    have n: "re_linebreak (a # as) = None" "\<not> regex_test re_linebreak as"
      using 1(2) not_regex_test_Cons [of re_linebreak a as] unfolding Cons by blast+
    show ?thesis
    proof (cases "re_spaces (a # as)")
      case None
      have e: "?R s = a # ?R as" using None Cons by simp
      have ih: "\<not> regex_test re_linebreak (?R as)"
        using 1(1) [rule_format, of as] Cons n(2) by simp
      have "re_linebreak (a # ?R as) = None"
      proof (rule ccontr)
        assume "re_linebreak (a # ?R as) \<noteq> None"
        then have "a = 92 \<and> (\<exists>t. ?R as = 92 # t)"
          by (rule re_linebreak_SomeD)
        then obtain t where t: "a = 92" "?R as = 92 # t" by blast
        then have "\<exists>u. as = 92 # u"
          using replace_all_head [OF c, of 32 as 92 t] by auto
        then show False using re_linebreak_NoneD [OF n(1) t(1)] by blast
      qed
      then show ?thesis unfolding e using ih by (rule not_regex_test_ConsI)
    next
      case (Some x)
      obtain g rest where x: "x = (g, rest)" by (cases x)
      have l: "length rest < length s"
        using consumingD(1) [OF c, of s g rest] Some x Cons by simp
      have r: "rest = dropWhile is_space s"
        using re_spaces_Some [of s g rest] Some x unfolding Cons by simp
      have e: "?R s = 32 # ?R rest"
        using Some x Cons l by simp
      have "\<not> regex_test re_linebreak rest"
        unfolding r using 1(2) by (rule regex_test_dropWhile)
      then have ih: "\<not> regex_test re_linebreak (?R rest)"
        using 1(1) [rule_format, of rest] l by simp
      have "re_linebreak (32 # ?R rest) = None"
        using re_linebreak_Cons [of 32 "?R rest"] by simp
      then show ?thesis unfolding e using ih by (rule not_regex_test_ConsI)
    qed
  qed
qed

lemma regex_test_lit_prefix: "regex_test (lit p) s \<Longrightarrow> regex_test (lit p) (s @ q)"
proof (induction s)
  case Nil
  then have "p = []" by (cases p) (simp_all add: lit_def)
  then show ?case by (cases q) (simp_all add: lit_def)
next
  case (Cons a s)
  show ?case
  proof (cases "lit p (a # s) = None")
    case True
    then show ?thesis using Cons by simp
  next
    case False
    then obtain r where "strip_prefix p (a # s) = Some r"
      by (auto simp: lit_def split: option.splits)
    then have "strip_prefix p ((a # s) @ q) = Some (r @ q)" by (rule strip_prefix_append)
    then show ?thesis by (simp add: lit_def)
  qed
qed

lemma linebreak_trim: "\<not> regex_test re_linebreak s \<Longrightarrow> \<not> regex_test re_linebreak (trim s)"
proof -
  assume h: "\<not> regex_test re_linebreak s"
  obtain pre post where s: "s = pre @ trim s @ post" using trim_decomp by blast
  have "\<not> regex_test re_linebreak (trim s @ post)"
    using h s regex_test_suffix [of re_linebreak pre "trim s @ post"] by simp
  then show ?thesis
    unfolding re_linebreak_def using regex_test_lit_prefix by blast
qed

lemma is_space_32: "is_space 32"
  by (simp add: is_space_def)

lemma ws_normal_skip: "\<not> is_space c \<Longrightarrow> ws_normal (c # t) = ws_normal t"
  by (cases t) simp_all

lemma ws_normal_space: "ws_normal (32 # t) \<longleftrightarrow> (t = [] \<or> \<not> is_space (hd t)) \<and> ws_normal t"
  by (cases t) (simp_all add: is_space_32)

lemma ws_normal_tl: "ws_normal (a # t) \<Longrightarrow> ws_normal t"
  by (cases t) auto

lemma ws_normal_suffix: "ws_normal (p @ s) \<Longrightarrow> ws_normal s"
  by (induction p) (auto dest: ws_normal_tl)

lemma ws_normal_prefix: "ws_normal (s @ q) \<Longrightarrow> ws_normal s"
proof (induction s rule: ws_normal.induct)
  case 1
  show ?case by simp
next
  case (2 c)
  then show ?case by (cases q) auto
next
  case (3 c d s)
  then show ?case by auto
qed

lemma ws_normal_trim: "ws_normal s \<Longrightarrow> ws_normal (trim s)"
proof -
  assume h: "ws_normal s"
  obtain pre post where s: "s = pre @ trim s @ post" using trim_decomp by blast
  have "ws_normal (trim s @ post)"
    using h s ws_normal_suffix [of pre "trim s @ post"] by simp
  then show ?thesis by (rule ws_normal_prefix)
qed

lemma re_spaces_None: "re_spaces (a # as) = None \<longleftrightarrow> \<not> is_space a"
  by (simp add: re_spaces_def)

lemma ws_normal_replaced: "ws_normal (replace_all re_spaces (\<lambda>g. [32]) s)"
proof (induction s rule: length_induct)
  case (1 s)
  note c = consuming_re_spaces
  let ?R = "replace_all re_spaces (\<lambda>g. [32])"
  show ?case
  proof (cases s)
    case Nil
    show ?thesis unfolding Nil replace_all_Nil [OF c] by simp
  next
    case (Cons a as)
    show ?thesis
    proof (cases "re_spaces (a # as)")
      case None
      have e: "?R s = a # ?R as" using None Cons by simp
      have "ws_normal (?R as)" using 1 [rule_format, of as] Cons by simp
      then show ?thesis
        unfolding e using None ws_normal_skip [of a "?R as"] re_spaces_None [of a as] by simp
    next
      case (Some x)
      obtain g rest where x: "x = (g, rest)" by (cases x)
      have l: "length rest < length s"
        using consumingD(1) [OF c, of s g rest] Some x Cons by simp
      have r: "rest = dropWhile is_space s"
        using re_spaces_Some [of s g rest] Some x unfolding Cons by simp
      have e: "?R s = 32 # ?R rest"
        using Some x Cons l by simp
      have ih: "ws_normal (?R rest)" using 1 [rule_format, of rest] l by simp
      have "?R rest = [] \<or> \<not> is_space (hd (?R rest))"
      proof (cases rest)
        case Nil
        show ?thesis unfolding Nil replace_all_Nil [OF c] by simp
      next
        case (Cons d ds)
        have "rest \<noteq> []" using Cons by simp
        then have "\<not> is_space (hd rest)" unfolding r by (rule hd_dropWhile)
        then have d: "\<not> is_space d" using Cons by simp
        then have "re_spaces (d # ds) = None" by (simp add: re_spaces_None)
        then have "?R rest = d # ?R ds" using Cons by simp
        then show ?thesis using d by simp
      qed
      then show ?thesis unfolding e ws_normal_space using ih by simp
    qed
  qed
qed

lemma ws_normal_fixed: "ws_normal s \<Longrightarrow> replace_all re_spaces (\<lambda>g. [32]) s = s"
proof (induction s rule: length_induct)
  case (1 s)
  note c = consuming_re_spaces
  let ?R = "replace_all re_spaces (\<lambda>g. [32])"
  show ?case
  proof (cases s)
    case Nil
    show ?thesis unfolding Nil replace_all_Nil [OF c] by simp
  next
    case (Cons a as)
    have t: "ws_normal as" using 1(2) Cons ws_normal_tl by blast
    have ih: "?R as = as" using 1(1) [rule_format, of as] Cons t by simp
    show ?thesis
    proof (cases "is_space a")
      case False
      then have "re_spaces (a # as) = None" by (simp add: re_spaces_None)
      then show ?thesis using Cons ih by simp
    next
      case True
      have a: "a = 32" using 1(2) True Cons by (cases as) auto
      have n: "as = [] \<or> \<not> is_space (hd as)"
        using 1(2) Cons a ws_normal_space [of as] by simp
      then have "takeWhile is_space as = []" "dropWhile is_space as = as"
        by (cases as; simp)+
      then have "re_spaces (a # as) = Some ([], as)"
        using True by (simp add: re_spaces_def)
      then have "?R s = 32 # ?R as" using Cons by simp
      then show ?thesis using ih a Cons by simp
    qed
  qed
qed

lemma re_dollar_hit: "re_dollar (36 # cs) \<noteq> None"
  by (cases cs) (simp_all add: re_dollar_def lit_def)

lemma re_amp_hit: "re_amp (38 # cs) \<noteq> None"
  by (simp add: re_amp_def lit_def)

lemma replace_all_keeps_out:
  assumes "consuming m" "k \<notin> set s" "\<And>g. k \<notin> set (rep g)"
  shows "k \<notin> set (replace_all m rep s)"
proof -
  have "set (replace_all m rep s) \<subseteq> set s \<union> (\<Union>g. set (rep g))"
    using assms(1) by (rule replace_all_subset) blast
  then show ?thesis using assms(2,3) by blast
qed

lemma clean_dollar_input: "clean dollar_input = [92, 91]" "clean [92, 91] = []"
  by (simp_all add: dollar_input_def char_defs regex_defs clean_defs)

text \<open>
  C2, as stated, fails: for the input \<open>\$[\<close> the first cleaning removes the dollar
  sign and leaves \<open>\[\<close>, which the second cleaning removes.
\<close>

theorem clean_not_idempotent:
  "clean (clean dollar_input) \<noteq> clean dollar_input"
  by (simp add: clean_dollar_input)

text \<open>
  C2, amended. Cleaning a cleaned text changes nothing whenever the cleaned text contains
  no display delimiter \<open>\[\<close> or \<open>\]\<close> and no wrapper \<open>\begin{...}\<close> or
  \<open>\end{...}\<close>.
\<close>

theorem clean_idempotent_when_stripped:
  assumes d: "\<not> regex_test re_display (clean x)"
    and b: "\<not> regex_test (re_env ''begin'') (clean x)"
    and e: "\<not> regex_test (re_env ''end'') (clean x)"
  shows "clean (clean x) = clean x"
proof -
  define y3 where "y3 = replace_all re_dollar (\<lambda>g. []) (replace_all re_display (\<lambda>g. []) (trim x))"
  define y5 where "y5 = replace_all (re_env ''end'') (\<lambda>g. []) (replace_all (re_env ''begin'') (\<lambda>g. []) y3)"
  define y6 where "y6 = replace_all re_amp (\<lambda>g. [32]) y5"
  define y7 where "y7 = replace_all re_linebreak (\<lambda>g. [32]) y6"
  define y8 where "y8 = replace_all re_spaces (\<lambda>g. [32]) y7"
  have r: "clean x = trim y8"
    by (simp add: clean_def space_text y3_def y5_def y6_def y7_def y8_def)
  have "\<forall>c\<in>set y3. \<not> c = 36"
    unfolding y3_def by (rule replace_all_removes) (simp_all add: consuming_clean re_dollar_hit)
  then have "36 \<notin> set y3" by blast
  then have "36 \<notin> set y5"
    unfolding y5_def by (intro replace_all_keeps_out consuming_re_env) simp_all
  then have "36 \<notin> set y6"
    unfolding y6_def by (intro replace_all_keeps_out consuming_clean) simp_all
  then have "36 \<notin> set y7"
    unfolding y7_def by (intro replace_all_keeps_out consuming_clean) simp_all
  then have "36 \<notin> set y8"
    unfolding y8_def by (intro replace_all_keeps_out consuming_re_spaces) simp_all
  then have dollar: "\<not> regex_test re_dollar (clean x)"
    unfolding r regex_test_re_dollar using set_trim by blast
  have "\<forall>c\<in>set y6. \<not> c = 38"
    unfolding y6_def by (rule replace_all_removes) (simp_all add: consuming_clean re_amp_hit)
  then have "38 \<notin> set y6" by blast
  then have "38 \<notin> set y7"
    unfolding y7_def by (intro replace_all_keeps_out consuming_clean) simp_all
  then have "38 \<notin> set y8"
    unfolding y8_def by (intro replace_all_keeps_out consuming_re_spaces) simp_all
  then have amp: "\<not> regex_test re_amp (clean x)"
    unfolding r regex_test_re_amp using set_trim by blast
  have "\<not> regex_test re_linebreak y7"
    unfolding y7_def by (rule linebreak_replaced)
  then have "\<not> regex_test re_linebreak y8"
    unfolding y8_def by (rule linebreak_spaces)
  then have lb: "\<not> regex_test re_linebreak (clean x)"
    unfolding r by (rule linebreak_trim)
  have "ws_normal y8"
    unfolding y8_def by (rule ws_normal_replaced)
  then have "ws_normal (clean x)"
    unfolding r by (rule ws_normal_trim)
  then have ws: "replace_all re_spaces (\<lambda>g. [32]) (clean x) = clean x"
    by (rule ws_normal_fixed)
  have t: "trim (clean x) = clean x"
    unfolding r by (rule trim_idem)
  have "clean (clean x) =
      trim (replace_all re_spaces (\<lambda>g. [32])
        (replace_all re_linebreak (\<lambda>g. [32])
          (replace_all re_amp (\<lambda>g. [32])
            (replace_all (re_env ''end'') (\<lambda>g. [])
              (replace_all (re_env ''begin'') (\<lambda>g. [])
                (replace_all re_dollar (\<lambda>g. [])
                  (replace_all re_display (\<lambda>g. [])
                    (trim (clean x)))))))))"
    by (simp only: clean_def [of "clean x"] space_text)
  also have "\<dots> = clean x"
    by (simp only: t replace_all_id [OF d] replace_all_id [OF dollar] replace_all_id [OF b]
        replace_all_id [OF e] replace_all_id [OF amp] replace_all_id [OF lb] ws)
  finally show ?thesis .
qed

lemma clean_aligned_input:
  "clean aligned_input = cmd ''alpha'' @ js '' '' @ cmd ''beta'' @ js '' '' @ cmd ''gamma''"
  by (simp add: aligned_input_def char_defs regex_defs clean_defs)

theorem clean_idempotent_when_stripped_witness:
  "\<not> regex_test re_display (clean aligned_input) \<and>
   \<not> regex_test (re_env ''begin'') (clean aligned_input) \<and>
   \<not> regex_test (re_env ''end'') (clean aligned_input) \<and>
   clean (clean aligned_input) = clean aligned_input"
proof -
  have h: "\<not> regex_test re_display (clean aligned_input)"
    "\<not> regex_test (re_env ''begin'') (clean aligned_input)"
    "\<not> regex_test (re_env ''end'') (clean aligned_input)"
    unfolding clean_aligned_input
    by (simp_all add: char_defs regex_defs re_display_def re_env_def)
  show ?thesis
    using h clean_idempotent_when_stripped [OF h] by blast
qed

section \<open>The empty input\<close>

text \<open>
  C8. For the empty text \<open>parse\<close> returns a record whose cleaned and readable texts,
  variables and operators are empty, whose flags are false, whose complexity is 1 and
  whose type is \<open>general\<close>; but its functions list is not empty: it holds the tag
  \<open>norm\<close>, and the functions list of no input is empty.
\<close>

theorem parse_empty_functions_not_empty:
  "parse [] =
     \<lparr>original = [], cleaned = [], readable = [], variables = [], operators = [],
      functions' = [js ''norm''],
      struct = \<lparr>isEquation = False, isInequality = False, isDefinition = False,
                hasSummation = False, hasIntegral = False, hasFraction = False,
                hasMatrix = False, complexity = 1, eqtype = js ''general''\<rparr>\<rparr> \<and>
   functions' (parse []) \<noteq> [] \<and>
   (\<forall>x. functions' (parse x) \<noteq> [])"
proof -
  have c: "clean [] = []" by (rule clean_empty)
  have "toReadable [] = []"
    by (simp add: char_defs regex_defs readable_defs)
  moreover have "extractVariables [] = []"
    by (simp add: char_defs regex_defs variables_defs)
  moreover have "extractOperators [] = []"
    by (simp add: char_defs regex_defs operators_defs)
  moreover have "extractFunctions [] = [js ''norm'']"
    by (simp add: char_defs regex_defs functions_defs)
  moreover have "analyzeStructure [] =
     \<lparr>isEquation = False, isInequality = False, isDefinition = False,
                hasSummation = False, hasIntegral = False, hasFraction = False,
                hasMatrix = False, complexity = 1, eqtype = js ''general''\<rparr>"
    by (simp add: char_defs regex_defs structure_defs)
  ultimately have p: "parse [] =
     \<lparr>original = [], cleaned = [], readable = [], variables = [], operators = [],
      functions' = [js ''norm''],
      struct = \<lparr>isEquation = False, isInequality = False, isDefinition = False,
                hasSummation = False, hasIntegral = False, hasFraction = False,
                hasMatrix = False, complexity = 1, eqtype = js ''general''\<rparr>\<rparr>"
    by (simp add: parse_def Let_def c)
  have n: "functions' (parse x) \<noteq> []" for x
    using extractFunctions_norm [of "clean x"] unfolding parse_fields by auto
  show ?thesis
    using p n by blast
qed

end
